theory Spec2Isabelle
  imports Main "HOL-Library.Sublist"
begin

section \<open>JavaScript strings\<close>

text \<open>
  \<^verbatim>\<open>String.prototype.toLowerCase\<close> on the ASCII letters (HTTP methods, header names and
  path literals are ASCII; a \<^typ>\<open>char\<close> is a byte).
\<close>

definition lower_char :: "char \<Rightarrow> char" where
  "lower_char c =
     (case map_of (zip ''ABCDEFGHIJKLMNOPQRSTUVWXYZ'' ''abcdefghijklmnopqrstuvwxyz'') c of
        Some l \<Rightarrow> l
      | None \<Rightarrow> c)"

definition toLowerCase :: "string \<Rightarrow> string" where
  "toLowerCase s = map lower_char s"

section \<open>The request context\<close>

text \<open>
  The \<^verbatim>\<open>data\<close> object of a request: the request view and the response view. Of the
  request the dispatcher reads \<^verbatim>\<open>method\<close>, \<^verbatim>\<open>url\<close> and \<^verbatim>\<open>strippedPath\<close> and writes
  \<^verbatim>\<open>params\<close> (\<open>None\<close> is JavaScript's \<^verbatim>\<open>undefined\<close>); of the response it calls
  \<^verbatim>\<open>setHeader\<close>. Node keeps response headers under their lower-cased names.
\<close>

record request =
  url :: string
  "method" :: string
  strippedPath :: string
  params :: "(string \<times> string) list option"

record response =
  headers :: "string \<rightharpoonup> string"

record data =
  req :: request
  res :: response

definition setHeader :: "response \<Rightarrow> string \<Rightarrow> string \<Rightarrow> response" where
  "setHeader r n v = r\<lparr>headers := (headers r)(toLowerCase n \<mapsto> v)\<rparr>"

definition getHeader :: "response \<Rightarrow> string \<Rightarrow> string option" where
  "getHeader r n = headers r (toLowerCase n)"

section \<open>Middleware\<close>

text \<open>
  A middleware function \<^verbatim>\<open>(data, next) => ...\<close> is modelled by what it does to the context
  and by whether it calls \<^verbatim>\<open>next\<close>: \<open>body h d = (d', True)\<close> when \<open>h\<close>, run on \<open>d\<close>, leaves
  \<open>d'\<close> and calls its continuation, \<open>(d', False)\<close> when it returns without calling it.
  JavaScript functions are compared by reference; \<open>name\<close> stands for that identity.
  Handlers that throw, and what a handler does after \<^verbatim>\<open>next\<close> has returned, are not
  modelled.
\<close>

datatype handler = Handler (name: string) (body: "data \<Rightarrow> data \<times> bool")

section \<open>Route (src/router/route.js)\<close>

text \<open>
  \<^verbatim>\<open>pathToRegexp(path, keys, options)\<close> belongs to the external package path-to-regexp.
  It is a parameter of the model: a function from the pattern and the options to the keys
  it pushes onto the (empty) \<^verbatim>\<open>keys\<close> array and the regular expression it returns. Of
  a regular expression the code uses \<^verbatim>\<open>test\<close>; \<^verbatim>\<open>exec\<close> gives the captured groups.
  Patterns on which the package throws are outside the model.
\<close>

record regexp =
  test :: "string \<Rightarrow> bool"
  exec :: "string \<Rightarrow> string list option"

record path_options =
  sensitive :: bool
  strict :: bool
  end_match :: bool

text \<open>
  The options are those the spec enumerates (section 4.1). The options object \<^verbatim>\<open>{}\<close>
  has every option at the package's default.
\<close>

definition empty_options :: path_options where
  "empty_options = \<lparr>sensitive = False, strict = False, end_match = True\<rparr>"

type_synonym compiler = "string \<Rightarrow> path_options \<Rightarrow> string list \<times> regexp"

text \<open>
  Modelled from the spec: the methods of a Route (section 3) are a set of HTTP verbs or
  a wild card meaning any; route.js only stores what it is given.
\<close>

datatype methods = AnyMethod | Methods "string list"

record route =
  methods :: methods
  path :: string
  middleware :: "handler list"
  options :: path_options
  parameters :: "string list"
  regex :: regexp

text \<open>
  \<^verbatim>\<open>function Route(methods, path, middleware, options)\<close>; \<open>None\<close> is an absent
  \<^verbatim>\<open>options\<close> argument, replaced by \<^verbatim>\<open>{}\<close>.
\<close>

definition Route ::
  "compiler \<Rightarrow> methods \<Rightarrow> string \<Rightarrow> handler list \<Rightarrow> path_options option \<Rightarrow> route" where
  "Route P ms p mw os =
     (let opts = (case os of None \<Rightarrow> empty_options | Some x \<Rightarrow> x);
          compiled = P p opts
      in \<lparr>methods = ms, path = p, middleware = mw, options = opts,
          parameters = fst compiled, regex = snd compiled\<rparr>)"

text \<open>\<^verbatim>\<open>Route.prototype.match\<close>\<close>

definition match :: "'a route_scheme \<Rightarrow> string \<Rightarrow> bool" where
  "match r p = test (regex r) p"

text \<open>
  \<^verbatim>\<open>Route.prototype.rebaseRoute\<close>: the guard \<^verbatim>\<open>if (this.path)\<close> is false exactly for the
  empty string. The method returns \<^verbatim>\<open>this\<close>; the model returns the updated route.
\<close>

definition rebaseRoute :: "compiler \<Rightarrow> route \<Rightarrow> string \<Rightarrow> route" where
  "rebaseRoute P r routeBase =
     (if path r \<noteq> [] then
        (let p = routeBase @ path r;
             compiled = P p (options r)
         in r\<lparr>path := p, parameters := fst compiled, regex := snd compiled\<rparr>)
      else r)"

section \<open>A matcher for literal patterns with named placeholders\<close>

text \<open>
  Modelled from the spec: the PathMatcher (section 4.1), which the external package
  path-to-regexp implements. A pattern is a string with placeholder segments such as
  \<^verbatim>\<open>:id\<close>; parameter names are derived left to right; a placeholder binds a non-empty
  run of characters other than \<^verbatim>\<open>/\<close>. The options are \<open>sensitive\<close> (case-sensitive
  matching or not), \<open>strict\<close> (whether a trailing slash is significant) and \<open>end_match\<close>
  (whether the match must consume the entire path or may stop at a segment boundary).
  Every character outside a placeholder is matched literally: the package's groups,
  modifiers and escapes are not modelled. This matcher instantiates the compiler
  parameter in the concrete examples only.
\<close>

datatype token = Chr char | Key string

definition name_char :: "char \<Rightarrow> bool" where
  "name_char c =
     (c \<in> set ''ABCDEFGHIJKLMNOPQRSTUVWXYZabcdefghijklmnopqrstuvwxyz0123456789_'')"

function tokens :: "string \<Rightarrow> token list" where
  "tokens [] = []"
| "tokens (c # cs) =
     (if c = CHR '':'' \<and> takeWhile name_char cs \<noteq> []
      then Key (takeWhile name_char cs) # tokens (dropWhile name_char cs)
      else Chr c # tokens cs)"
  by pat_completeness auto
termination
  by (relation "measure length") (auto simp: length_dropWhile_le less_Suc_eq_le)

definition same_char :: "path_options \<Rightarrow> char \<Rightarrow> char \<Rightarrow> bool" where
  "same_char os c x = (if sensitive os then c = x else lower_char c = lower_char x)"

text \<open>
  What may follow the last token: with \<open>end_match\<close> nothing, or one trailing slash unless
  \<open>strict\<close>; without it the rest of the path starts at a segment boundary (\<open>ed\<close>: the
  pattern itself ends with a slash, or is empty).
\<close>

definition end_ok :: "path_options \<Rightarrow> bool \<Rightarrow> string \<Rightarrow> bool" where
  "end_ok os ed s =
     (if end_match os then s = [] \<or> (\<not> strict os \<and> s = ''/'')
      else ed \<or> (case s of [] \<Rightarrow> True | x # _ \<Rightarrow> x = CHR ''/''))"

text \<open>
  The captured groups, or \<open>None\<close> when the path does not match. A placeholder tries the
  shortest run first.
\<close>

fun tokens_exec :: "path_options \<Rightarrow> bool \<Rightarrow> token list \<Rightarrow> string \<Rightarrow> string list option" where
  "tokens_exec os ed [] s = (if end_ok os ed s then Some [] else None)"
| "tokens_exec os ed (Chr c # ts) s =
     (case s of
        [] \<Rightarrow> None
      | x # xs \<Rightarrow> if same_char os c x then tokens_exec os ed ts xs else None)"
| "tokens_exec os ed (Key n # ts) s =
     (case List.map_filter
             (\<lambda>k. map_option ((#) (take k s)) (tokens_exec os ed ts (drop k s)))
             [1 ..< Suc (length (takeWhile (\<lambda>x. x \<noteq> CHR ''/'') s))] of
        [] \<Rightarrow> None
      | caps # _ \<Rightarrow> Some caps)"

definition end_delimited :: "token list \<Rightarrow> bool" where
  "end_delimited ts = (ts = [] \<or> last ts = Chr CHR ''/'')"

definition key_names :: "token list \<Rightarrow> string list" where
  "key_names ts = concat (map (\<lambda>t. case t of Key n \<Rightarrow> [n] | Chr _ \<Rightarrow> []) ts)"

definition pathToRegexp :: compiler where
  "pathToRegexp p os =
     (let ts = tokens p;
          ex = tokens_exec os (end_delimited ts) ts
      in (key_names ts, \<lparr>test = (\<lambda>s. ex s \<noteq> None), exec = ex\<rparr>))"

text \<open>
  Modelled from the spec: \<^verbatim>\<open>extractParams(path)\<close> of a Route (section 4.2) delegates to
  \<^verbatim>\<open>exec\<close> and gives the mapping from parameter names to strings, empty when the path
  does not match. It is not in route.js.
\<close>

definition extractParams :: "'a route_scheme \<Rightarrow> string \<Rightarrow> (string \<times> string) list" where
  "extractParams r p =
     (case exec (regex r) p of
        None \<Rightarrow> []
      | Some caps \<Rightarrow> zip (parameters r) caps)"

section \<open>Router\<close>

text \<open>
  Modelled from the spec: the Router (section 4.3; router/router.js is not among the
  sources). A Router owns an ordered sequence of Routes, its router-scoped middleware
  and the child Routers mounted into it.
\<close>

datatype router =
  Router (routes: "route list") (router_middleware: "handler list") (children: "router list")

text \<open>
  Modelled from the spec: what a successful resolution returns (router.js is missing).
  It is the matching Route, carrying as \<^verbatim>\<open>params\<close> the bindings extracted from the
  path: the dispatcher reads \<^verbatim>\<open>matchData.route.params\<close> and
  \<^verbatim>\<open>matchData.route.middleware\<close>.
\<close>

record matched_route = route +
  route_params :: "(string \<times> string) list"

definition with_params :: "route \<Rightarrow> (string \<times> string) list \<Rightarrow> matched_route" where
  "with_params r ps =
     \<lparr>methods = methods r, path = path r, middleware = middleware r, options = options r,
      parameters = parameters r, regex = regex r, route_params = ps\<rparr>"

text \<open>
  Modelled from the spec: \<^verbatim>\<open>addRoute(methods, path, middleware)\<close> appends a new Route.
\<close>

definition addRoute :: "compiler \<Rightarrow> router \<Rightarrow> methods \<Rightarrow> string \<Rightarrow> handler list \<Rightarrow> router" where
  "addRoute P r ms p mw =
     Router (routes r @ [Route P ms p mw None]) (router_middleware r) (children r)"

text \<open>
  Modelled from the spec: rebasing a Router rebases every Route it owns transitively,
  its own Routes and those of the Routers mounted inside it. The dispatcher uses the
  value the call returns as the router.
\<close>

fun rebaseRouter :: "compiler \<Rightarrow> router \<Rightarrow> string \<Rightarrow> router" where
  "rebaseRouter P (Router rs mw cs) b =
     Router (map (\<lambda>rt. rebaseRoute P rt b) rs) mw (map (\<lambda>c. rebaseRouter P c b) cs)"

text \<open>
  Modelled from the spec: activation (\<^verbatim>\<open>createRegex\<close>) finalizes the compiled matchers
  of all owned Routes.
\<close>

definition recompile :: "compiler \<Rightarrow> route \<Rightarrow> route" where
  "recompile P rt =
     (let compiled = P (path rt) (options rt)
      in rt\<lparr>parameters := fst compiled, regex := snd compiled\<rparr>)"

definition createRegex :: "compiler \<Rightarrow> router \<Rightarrow> router" where
  "createRegex P r = Router (map (recompile P) (routes r)) (router_middleware r) (children r)"

text \<open>
  Modelled from the spec: \<^verbatim>\<open>resolve(path, method)\<close> (\<^verbatim>\<open>findRoute\<close> in the code) scans
  the Router's own Routes in declaration order; a Route matches iff its matcher's test
  succeeds and its methods contain the method case-insensitively or are the wild card.
  The first match wins.
\<close>

definition method_allowed :: "methods \<Rightarrow> string \<Rightarrow> bool" where
  "method_allowed ms m =
     (case ms of
        AnyMethod \<Rightarrow> True
      | Methods vs \<Rightarrow> toLowerCase m \<in> set (map toLowerCase vs))"

definition findRoute :: "router \<Rightarrow> string \<Rightarrow> string \<Rightarrow> matched_route option" where
  "findRoute r p m =
     (case List.find (\<lambda>rt. match rt p \<and> method_allowed (methods rt) m) (routes r) of
        None \<Rightarrow> None
      | Some rt \<Rightarrow> Some (with_params rt (extractParams rt p)))"

section \<open>JavaScript values and errors\<close>

text \<open>
  The values the dispatcher's methods can be called with. \<open>PlainObj ms\<close> is an object that
  is not a Router and whose properties named in \<open>ms\<close> are functions that do nothing and
  return \<^verbatim>\<open>undefined\<close>; it has no other property. Numbers, \<^verbatim>\<open>null\<close> and arrays are
  left out.
\<close>

datatype jsval =
  Undefined
| Bool bool
| Str string
| Fn handler
| RouterObj router
| PlainObj "string list"

text \<open>
  \<open>Error\<close> is \<^verbatim>\<open>new Error(message)\<close>; \<open>TypeError m\<close> is the error the JavaScript
  runtime raises when the property \<open>m\<close> of a value is called and is not a function;
  \<open>TypeMismatchError\<close> is the error of the spec's taxonomy, raised by the modelled Router.
\<close>

datatype error = Error string | TypeError string | TypeMismatchError

text \<open>
  The errors of the type-error class: the runtime's \<^verbatim>\<open>TypeError\<close> and the
  \<^verbatim>\<open>TypeMismatchError\<close> of the spec. A plain \<^verbatim>\<open>Error\<close> is not one
  (\<^verbatim>\<open>new Error(...) instanceof TypeError\<close> is false).
\<close>

fun type_error_class :: "error \<Rightarrow> bool" where
  "type_error_class (Error msg) = False"
| "type_error_class (TypeError m) = True"
| "type_error_class TypeMismatchError = True"

fun typeof :: "jsval \<Rightarrow> string" where
  "typeof Undefined = ''undefined''"
| "typeof (Bool b) = ''boolean''"
| "typeof (Str s) = ''string''"
| "typeof (Fn h) = ''function''"
| "typeof (RouterObj r) = ''object''"
| "typeof (PlainObj ms) = ''object''"

fun truthy :: "jsval \<Rightarrow> bool" where
  "truthy Undefined = False"
| "truthy (Bool b) = b"
| "truthy (Str s) = (s \<noteq> [])"
| "truthy (Fn h) = True"
| "truthy (RouterObj r) = True"
| "truthy (PlainObj ms) = True"

text \<open>\<^verbatim>\<open>!v\<close>, \<^verbatim>\<open>a || b\<close> and \<^verbatim>\<open>v instanceof maritimeRouter\<close>\<close>

definition js_not :: "jsval \<Rightarrow> jsval" where
  "js_not v = Bool (\<not> truthy v)"

definition js_or :: "jsval \<Rightarrow> jsval \<Rightarrow> jsval" where
  "js_or a b = (if truthy a then a else b)"

fun instanceof_maritimeRouter :: "jsval \<Rightarrow> bool" where
  "instanceof_maritimeRouter (RouterObj r) = True"
| "instanceof_maritimeRouter v = False"

text \<open>The strict comparisons \<^verbatim>\<open>v === "s"\<close> with a string and \<^verbatim>\<open>v === true\<close>\<close>

fun strict_equals_string :: "jsval \<Rightarrow> string \<Rightarrow> bool" where
  "strict_equals_string (Str s) t = (s = t)"
| "strict_equals_string v t = False"

fun strict_equals_true :: "jsval \<Rightarrow> bool" where
  "strict_equals_true (Bool b) = b"
| "strict_equals_true v = False"

text \<open>\<^verbatim>\<open>args[i]\<close>: \<^verbatim>\<open>undefined\<close> outside the array.\<close>

definition arg :: "jsval list \<Rightarrow> int \<Rightarrow> jsval" where
  "arg args i = (if 0 \<le> i \<and> i < int (length args) then args ! nat i else Undefined)"

text \<open>\<^verbatim>\<open>Array.prototype.slice(start, end)\<close>: a negative index counts from the end.\<close>

definition slice :: "'a list \<Rightarrow> int \<Rightarrow> int \<Rightarrow> 'a list" where
  "slice xs start fin =
     (let len = int (length xs);
          k = (if start < 0 then max (len + start) 0 else min start len);
          final = (if fin < 0 then max (len + fin) 0 else min fin len)
      in take (nat (final - k)) (drop (nat k) xs))"

definition as_handlers :: "jsval list \<Rightarrow> handler list" where
  "as_handlers vs = concat (map (\<lambda>v. case v of Fn h \<Rightarrow> [h] | _ \<Rightarrow> []) vs)"

text \<open>
  A call \<^verbatim>\<open>v.m(...)\<close> of a Router method on a value: \<open>f\<close> is the method on a Router,
  \<open>u\<close> the outcome on a plain object whose \<open>m\<close> does nothing; on every other value the
  runtime raises a TypeError.
\<close>

definition call_method :: "string \<Rightarrow> (router \<Rightarrow> error + 'a) \<Rightarrow> 'a \<Rightarrow> jsval \<Rightarrow> error + 'a" where
  "call_method m f u v =
     (case v of
        RouterObj r \<Rightarrow> f r
      | PlainObj ms \<Rightarrow> if m \<in> set ms then Inr u else Inl (TypeError m)
      | _ \<Rightarrow> Inl (TypeError m))"

text \<open>
  Modelled from the spec: \<^verbatim>\<open>use(path?, middleware)\<close> of a Router, called with no path,
  appends to the router-scoped middleware; middleware that is not invocable is a
  \<^verbatim>\<open>TypeMismatchError\<close> (section 7).
\<close>

definition router_use :: "router \<Rightarrow> jsval list \<Rightarrow> error + router" where
  "router_use r mw =
     (if list_all (\<lambda>v. typeof v = ''function'') mw
      then Inr (Router (routes r) (router_middleware r @ as_handlers mw) (children r))
      else Inl TypeMismatchError)"

definition and_then :: "error + 'a \<Rightarrow> ('a \<Rightarrow> error + 'b) \<Rightarrow> error + 'b" where
  "and_then x f = (case x of Inl e \<Rightarrow> Inl e | Inr a \<Rightarrow> f a)"

section \<open>The application (class Maritime)\<close>

record maritime =
  globalMiddleware :: "handler list"
  mountedRouters :: "jsval list"
  env :: jsval
  settings :: "string \<rightharpoonup> jsval"
  keys :: jsval
  proxy :: jsval
  proxyHeader :: jsval

text \<open>The \<^verbatim>\<open>options\<close> argument of the constructor; an absent property is \<open>Undefined\<close>.\<close>

record maritime_options =
  opt_env :: jsval
  opt_keys :: jsval
  opt_proxy :: jsval
  opt_proxyHeader :: jsval

text \<open>\<^verbatim>\<open>set(setting, val)\<close> and \<^verbatim>\<open>get(setting)\<close>\<close>

definition set_app :: "maritime \<Rightarrow> string \<Rightarrow> jsval \<Rightarrow> maritime" where
  "set_app app setting val = app\<lparr>settings := (settings app)(setting \<mapsto> val)\<rparr>"

definition get :: "maritime \<Rightarrow> string \<Rightarrow> jsval" where
  "get app setting = (case settings app setting of None \<Rightarrow> Undefined | Some v \<Rightarrow> v)"

text \<open>
  The constructor; \<open>node_env\<close> is \<^verbatim>\<open>process.env.NODE_ENV\<close>. The prototype objects of
  data, request and response are not modelled.
\<close>

definition Maritime :: "jsval \<Rightarrow> maritime_options \<Rightarrow> maritime" where
  "Maritime node_env opts =
     (let this =
        \<lparr>globalMiddleware = [], mountedRouters = [],
         env = js_or (js_or (opt_env opts) node_env) (Str ''development''),
         settings = Map.empty,
         keys = (if truthy (opt_keys opts) then opt_keys opts else Undefined),
         proxy = js_or (opt_proxy opts) (Bool False),
         proxyHeader = js_or (opt_proxyHeader opts) (Str ''X-Forwarded-For'')\<rparr>
      in set_app this ''x-powered-by'' (Bool (\<not> strict_equals_string (env this) ''production'')))"

text \<open>
  A method that may throw returns the state it leaves and the error it threw, if any.
\<close>

definition use :: "maritime \<Rightarrow> jsval \<Rightarrow> maritime \<times> error option" where
  "use app mw =
     (if typeof mw \<noteq> ''function''
      then (app, Some (Error ''Middleware provided with .use() must be a function.''))
      else (app\<lparr>globalMiddleware := globalMiddleware app @ as_handlers [mw]\<rparr>, None))"

text \<open>
  The argument sniffing of \<^verbatim>\<open>mount(...args)\<close> (lines 72 to 93): the base route
  (\<open>None\<close> when it stays \<^verbatim>\<open>undefined\<close>), the middleware array (likewise) and the router.
\<close>

definition mount_args :: "jsval list \<Rightarrow> string option \<times> jsval list option \<times> jsval" where
  "mount_args args =
     (let n = int (length args) in
      case arg args 0 of
        Str b \<Rightarrow>
          (Some b,
           (if typeof (arg args 1) = ''function'' then Some (slice args 1 (n - 2)) else None),
           arg args (n - 1))
      | Fn h \<Rightarrow> (None, Some (slice args 0 (n - 2)), arg args (n - 1))
      | _ \<Rightarrow> (None, None, arg args 0))"

text \<open>
  The options applied to the router before mounting (lines 101 to 112).
  \<^verbatim>\<open>applyRoutingEngine\<close> is a method of the Router that the spec does not describe: it is
  the parameter \<open>E\<close>.
\<close>

definition prepare_router ::
  "compiler \<Rightarrow> (router \<Rightarrow> jsval \<Rightarrow> router) \<Rightarrow> maritime \<Rightarrow> string option \<Rightarrow> jsval list option \<Rightarrow>
     jsval \<Rightarrow> error + jsval" where
  "prepare_router P E app baseRoute mws router =
     and_then
       (case baseRoute of
          Some b \<Rightarrow>
            call_method ''rebaseRouter'' (\<lambda>r. Inr (RouterObj (rebaseRouter P r b))) Undefined router
        | None \<Rightarrow> Inr router)
       (\<lambda>router.
          and_then
            (case mws of
               Some mw \<Rightarrow>
                 call_method ''use'' (\<lambda>r. and_then (router_use r mw) (\<lambda>r'. Inr (RouterObj r')))
                   router router
             | None \<Rightarrow> Inr router)
            (\<lambda>router.
               and_then
                 (let routingEngine = get app ''routing-engine'' in
                  if truthy routingEngine
                  then call_method ''applyRoutingEngine''
                         (\<lambda>r. Inr (RouterObj (E r routingEngine))) router router
                  else Inr router)
                 (\<lambda>router.
                    call_method ''createRegex'' (\<lambda>r. Inr (RouterObj (createRegex P r)))
                      router router)))"

definition mount ::
  "compiler \<Rightarrow> (router \<Rightarrow> jsval \<Rightarrow> router) \<Rightarrow> maritime \<Rightarrow> jsval list \<Rightarrow> maritime \<times> error option" where
  "mount P E app args =
     (case mount_args args of
        (baseRoute, mws, router) \<Rightarrow>
          if instanceof_maritimeRouter (js_not router)
          then (app, Some (Error ''Only maritime routers can be mounted for use with maritime.''))
          else (case prepare_router P E app baseRoute mws router of
                  Inl e \<Rightarrow> (app, Some e)
                | Inr router' \<Rightarrow> (app\<lparr>mountedRouters := mountedRouters app @ [router']\<rparr>, None)))"

text \<open>\<^verbatim>\<open>findRouteMatch(path, method)\<close>: the loop over the mounted routers.\<close>

record matchData =
  route :: matched_route
  router :: router

fun findRouteMatch_loop :: "jsval list \<Rightarrow> string \<Rightarrow> string \<Rightarrow> error + matchData option" where
  "findRouteMatch_loop [] p m = Inr None"
| "findRouteMatch_loop (v # vs) p m =
     and_then
       (call_method ''findRoute''
          (\<lambda>r. Inr (map_option (\<lambda>mt. \<lparr>route = mt, router = r\<rparr>) (findRoute r p (toLowerCase m))))
          None v)
       (\<lambda>found. case found of
                   Some returnData \<Rightarrow> Inr (Some returnData)
                 | None \<Rightarrow> findRouteMatch_loop vs p m)"

definition findRouteMatch :: "maritime \<Rightarrow> string \<Rightarrow> string \<Rightarrow> error + matchData option" where
  "findRouteMatch app p m = findRouteMatch_loop (mountedRouters app) p m"

section \<open>Middleware chains and request handling\<close>

text \<open>
  A run of request handling is observed through the handlers it invoked, in order, each
  with the tier of the chain that invoked it and the context it was given; together with
  the context at the end and the error thrown, if any.
\<close>

datatype tier = GlobalTier | RouterTier | RouteTier

record event =
  ev_tier :: tier
  ev_handler :: handler
  ev_seen :: data

record run =
  trace :: "event list"
  ctx :: data
  thrown :: "error option"

definition completed :: "data \<Rightarrow> run" where
  "completed d = \<lparr>trace = [], ctx = d, thrown = None\<rparr>"

definition after_event :: "event \<Rightarrow> run \<Rightarrow> run" where
  "after_event e r = r\<lparr>trace := e # trace r\<rparr>"

text \<open>
  Modelled from the spec: the MiddlewareChain (section 4.4; middleware/middlewareCompiler.js
  is not among the sources). \<open>middlewareCompiler t ms\<close> is the compiled chain
  \<^verbatim>\<open>invoke(context, onComplete)\<close>: the handlers run strictly in list order; a handler that
  does not call \<^verbatim>\<open>next\<close> ends the chain, and nothing scheduled after the chain runs; the
  \<^verbatim>\<open>next\<close> of the last handler calls \<open>onComplete\<close>. The tier \<open>t\<close> only labels the events.
\<close>

fun middlewareCompiler :: "tier \<Rightarrow> handler list \<Rightarrow> data \<Rightarrow> (data \<Rightarrow> run) \<Rightarrow> run" where
  "middlewareCompiler t [] d onComplete = onComplete d"
| "middlewareCompiler t (h # hs) d onComplete =
     after_event \<lparr>ev_tier = t, ev_handler = h, ev_seen = d\<rparr>
       (case body h d of
          (d', True) \<Rightarrow> middlewareCompiler t hs d' onComplete
        | (d', False) \<Rightarrow> completed d')"

text \<open>
  \<^verbatim>\<open>handleRequest(data)\<close> with its two closures. The route chain is invoked without a
  continuation: when its last handler calls \<^verbatim>\<open>next\<close> the run is complete. The method
  returns the application as it leaves it, with the run: it assigns to no property of
  the application, its Routers or their Routes.
\<close>

definition runRouteFuncs :: "matchData \<Rightarrow> data \<Rightarrow> run" where
  "runRouteFuncs md d = middlewareCompiler RouteTier (middleware (route md)) d completed"

definition executeRouteFuncs :: "maritime \<Rightarrow> data \<Rightarrow> run" where
  "executeRouteFuncs app d =
     (case findRouteMatch app (strippedPath (req d)) (method (req d)) of
        Inl e \<Rightarrow> \<lparr>trace = [], ctx = d, thrown = Some e\<rparr>
      | Inr None \<Rightarrow> completed d
      | Inr (Some md) \<Rightarrow>
          (let d' = d\<lparr>req := (req d)\<lparr>params := Some (route_params (route md))\<rparr>\<rparr>
           in middlewareCompiler RouterTier (router_middleware (router md)) d'
                (runRouteFuncs md)))"

definition handleRequest :: "maritime \<Rightarrow> data \<Rightarrow> maritime \<times> run" where
  "handleRequest app d =
     (app, middlewareCompiler GlobalTier (globalMiddleware app) d (executeRouteFuncs app))"

text \<open>
  \<^verbatim>\<open>constructData(req, res)\<close>; \<open>pathname\<close> is \<^verbatim>\<open>url.parse(...).pathname\<close> of Node's url
  module. The references between request, response and application are not modelled.
\<close>

definition constructData :: "(string \<Rightarrow> string) \<Rightarrow> maritime \<Rightarrow> request \<Rightarrow> response \<Rightarrow> data" where
  "constructData pathname app rq rs =
     (let response =
            (if strict_equals_true (get app ''x-powered-by'')
             then setHeader rs ''X-Powered-By'' ''Maritime''
             else rs);
          request = rq\<lparr>strippedPath := pathname (url rq)\<rparr>
      in \<lparr>req = request, res = response\<rparr>)"

text \<open>\<^verbatim>\<open>handleServer()\<close>: the function given to the HTTP server.\<close>

definition handleServer ::
  "(string \<Rightarrow> string) \<Rightarrow> maritime \<Rightarrow> request \<Rightarrow> response \<Rightarrow> maritime \<times> run" where
  "handleServer pathname app rq rs = handleRequest app (constructData pathname app rq rs)"

section \<open>Observing a run; a sample application\<close>

text \<open>The handlers a run invoked, with their tiers.\<close>

definition labels :: "event list \<Rightarrow> (tier \<times> handler) list" where
  "labels es = map (\<lambda>e. (ev_tier e, ev_handler e)) es"

text \<open>The handler of an event, run on the context it was given, called next.\<close>

definition called_next :: "event \<Rightarrow> bool" where
  "called_next e = snd (body (ev_handler e) (ev_seen e))"

text \<open>
  A sample application, for the concrete instances below: one Router with the route
  \<^verbatim>\<open>GET /users/:id\<close>, the router middleware \<^verbatim>\<open>auth\<close> and the route handler \<^verbatim>\<open>show\<close>,
  mounted on a fresh application, with the route as it stands after mounting and the
  match data of \<^verbatim>\<open>GET /users/42\<close>; the same with a global middleware that calls next
  (\<^verbatim>\<open>log\<close>) and with one that does not (\<^verbatim>\<open>deny\<close>); and an application on which a Router
  without a matching route, the users Router and a plain object with a \<^verbatim>\<open>createRegex\<close>
  method were mounted in that order.
\<close>

definition no_options :: maritime_options where
  "no_options =
     \<lparr>opt_env = Undefined, opt_keys = Undefined, opt_proxy = Undefined,
      opt_proxyHeader = Undefined\<rparr>"

definition ex_log :: handler where
  "ex_log = Handler ''log'' (\<lambda>d. (d, True))"

definition ex_deny :: handler where
  "ex_deny = Handler ''deny'' (\<lambda>d. (d, False))"

definition ex_auth :: handler where
  "ex_auth = Handler ''auth'' (\<lambda>d. (d, True))"

definition ex_show :: handler where
  "ex_show = Handler ''show'' (\<lambda>d. (d, False))"

definition users_router :: router where
  "users_router =
     addRoute pathToRegexp (Router [] [ex_auth] []) (Methods [''GET'']) ''/users/:id'' [ex_show]"

definition users_route :: route where
  "users_route =
     recompile pathToRegexp
       (Route pathToRegexp (Methods [''GET'']) ''/users/:id'' [ex_show] None)"

definition users_match :: matchData where
  "users_match =
     \<lparr>route = with_params users_route [(''id'', ''42'')],
      router = createRegex pathToRegexp users_router\<rparr>"

definition info_router :: router where
  "info_router = addRoute pathToRegexp (Router [] [] []) AnyMethod ''/info'' [ex_show]"

definition no_engine :: "router \<Rightarrow> jsval \<Rightarrow> router" where
  "no_engine r e = r"

definition users_app :: maritime where
  "users_app =
     fst (mount pathToRegexp no_engine (Maritime Undefined no_options) [RouterObj users_router])"

definition logged_app :: maritime where
  "logged_app = fst (use users_app (Fn ex_log))"

definition denied_app :: maritime where
  "denied_app = fst (use users_app (Fn ex_deny))"

definition three_mounts_app :: maritime where
  "three_mounts_app =
     fst (mount pathToRegexp no_engine
            (fst (mount pathToRegexp no_engine
                    (fst (mount pathToRegexp no_engine (Maritime Undefined no_options)
                            [RouterObj info_router]))
                    [RouterObj users_router]))
            [PlainObj [''createRegex'']])"

definition get_request :: "string \<Rightarrow> data" where
  "get_request p =
     \<lparr>req = \<lparr>url = p, method = ''GET'', strippedPath = p, params = None\<rparr>,
      res = \<lparr>headers = Map.empty\<rparr>\<rparr>"

section \<open>Properties of Route\<close>

lemma path_Route [simp]: "path (Route P ms p mw os) = p"
  by (simp add: Route_def Let_def)

lemma options_Route [simp]:
  "options (Route P ms p mw os) = (case os of None \<Rightarrow> empty_options | Some x \<Rightarrow> x)"
  by (simp add: Route_def Let_def)

lemma rebaseRoute_nonempty:
  "path r \<noteq> [] \<Longrightarrow>
     rebaseRoute P r b =
       r\<lparr>path := b @ path r, parameters := fst (P (b @ path r) (options r)),
         regex := snd (P (b @ path r) (options r))\<rparr>"
  by (simp add: rebaseRoute_def Let_def)

lemma info_accepts: "test (snd (pathToRegexp ''/v1/api/info'' empty_options)) ''/v1/api/info''"
  by code_simp

lemma info_rejects: "\<not> test (snd (pathToRegexp ''/v1/api/info'' empty_options)) ''/api/info''"
  by code_simp

text \<open>
  C9: a Route whose path is the empty string is left as it is by \<open>rebaseRoute\<close>, for every
  base and every pattern compiler: its path, its parameter list and its compiled matcher
  are unchanged, and the call returns the Route itself.
\<close>

theorem rebaseRoute_empty_path:
  "path r = [] \<Longrightarrow>
     rebaseRoute P r b = r \<and> path (rebaseRoute P r b) = path r \<and>
     parameters (rebaseRoute P r b) = parameters r \<and> regex (rebaseRoute P r b) = regex r"
  by (simp add: rebaseRoute_def)

theorem rebaseRoute_empty_path_witness:
  "path (Route pathToRegexp AnyMethod [] [] None) = [] \<and>
   rebaseRoute pathToRegexp (Route pathToRegexp AnyMethod [] [] None) ''/api'' =
     Route pathToRegexp AnyMethod [] [] None"
  using rebaseRoute_empty_path [of "Route pathToRegexp AnyMethod [] [] None" pathToRegexp "''/api''"]
  by simp

text \<open>
  C4, as stated for every Route, fails at a Route whose path is empty: under the base
  \<^verbatim>\<open>/api\<close> its path stays empty.
\<close>

theorem rebaseRoute_empty_counterexample:
  "path (rebaseRoute pathToRegexp (Route pathToRegexp AnyMethod [] [] None) ''/api'') \<noteq>
     ''/api'' @ path (Route pathToRegexp AnyMethod [] [] None)"
  by (simp add: rebaseRoute_def)

text \<open>
  C4, amended: for every Route whose path is not empty, every base and every pattern
  compiler, \<open>rebaseRoute\<close> prepends the base to the path and recompiles parameters and
  matcher from the new path with the Route's options. With the placeholder matcher, a
  Route with pattern \<^verbatim>\<open>/info\<close> rebased under \<^verbatim>\<open>/api\<close> and then under \<^verbatim>\<open>/v1\<close> has the
  pattern \<^verbatim>\<open>/v1/api/info\<close>; it accepts the path \<^verbatim>\<open>/v1/api/info\<close> and rejects \<^verbatim>\<open>/api/info\<close>.
\<close>

theorem rebaseRoute_prepends:
  "(path r \<noteq> [] \<longrightarrow>
      rebaseRoute P r b =
        r\<lparr>path := b @ path r, parameters := fst (P (b @ path r) (options r)),
          regex := snd (P (b @ path r) (options r))\<rparr>) \<and>
   (let r2 = rebaseRoute pathToRegexp
               (rebaseRoute pathToRegexp (Route pathToRegexp ms ''/info'' mw None) ''/api'') ''/v1''
    in path r2 = ''/v1/api/info'' \<and> match r2 ''/v1/api/info'' \<and> \<not> match r2 ''/api/info'')"
  by (simp add: rebaseRoute_nonempty Let_def match_def info_accepts info_rejects)

theorem rebaseRoute_prepends_witness:
  "path (Route pathToRegexp AnyMethod ''/info'' [] None) \<noteq> [] \<and>
   path (rebaseRoute pathToRegexp (Route pathToRegexp AnyMethod ''/info'' [] None) ''/api'') =
     ''/api/info''"
  using rebaseRoute_prepends [of "Route pathToRegexp AnyMethod ''/info'' [] None" pathToRegexp "''/api''"]
  by simp

section \<open>Properties of the application's settings and global middleware\<close>

lemma strict_equals_string_iff [simp]: "strict_equals_string v s \<longleftrightarrow> v = Str s"
  by (cases v) auto

lemma strict_equals_true_iff [simp]: "strict_equals_true v \<longleftrightarrow> v = Bool True"
  by (cases v) auto

lemma get_Maritime:
  "get (Maritime node_env opts) k =
     (if k = ''x-powered-by'' then Bool (env (Maritime node_env opts) \<noteq> Str ''production'')
      else Undefined)"
  by (simp add: Maritime_def Let_def set_app_def get_def)

lemma env_Maritime:
  "env (Maritime node_env opts) = js_or (js_or (opt_env opts) node_env) (Str ''development'')"
  by (simp add: Maritime_def Let_def set_app_def)

lemma mountedRouters_Maritime [simp]: "mountedRouters (Maritime node_env opts) = []"
  by (simp add: Maritime_def Let_def set_app_def)

lemma globalMiddleware_Maritime [simp]: "globalMiddleware (Maritime node_env opts) = []"
  by (simp add: Maritime_def Let_def set_app_def)

text \<open>
  C8, as stated, fails on the error's class: for an argument that is not a function
  \<open>use\<close> throws a plain \<^verbatim>\<open>Error\<close>, which is not of the type-error class.
\<close>

theorem use_error_class_counterexample:
  "typeof (Str ''log'') \<noteq> ''function'' \<and>
   snd (use (Maritime Undefined no_options) (Str ''log'')) =
     Some (Error ''Middleware provided with .use() must be a function.'') \<and>
   \<not> type_error_class (Error ''Middleware provided with .use() must be a function.'')"
  by (simp add: use_def)

text \<open>
  C8, amended: \<open>use m\<close> throws exactly when \<open>m\<close> is not a function; what it throws is
  the plain \<^verbatim>\<open>Error\<close> with the message that the middleware must be a function, never an
  error of the type-error class, and the application (its global middleware list with it)
  is left as it was. When \<open>m\<close> is a function it becomes the last element of the global
  middleware list and nothing is thrown.
\<close>

theorem use_appends_functions_only:
  "(snd (use app m) \<noteq> None \<longleftrightarrow> typeof m \<noteq> ''function'') \<and>
   (\<forall>h. m = Fn h \<longrightarrow>
      use app m = (app\<lparr>globalMiddleware := globalMiddleware app @ [h]\<rparr>, None)) \<and>
   (typeof m \<noteq> ''function'' \<longrightarrow>
      use app m = (app, Some (Error ''Middleware provided with .use() must be a function.''))) \<and>
   (\<forall>e. snd (use app m) = Some e \<longrightarrow> \<not> type_error_class e)"
  by (cases m) (auto simp: use_def as_handlers_def)

theorem use_appends_functions_only_witness:
  "use (Maritime Undefined \<lparr>opt_env = Undefined, opt_keys = Undefined, opt_proxy = Undefined,
          opt_proxyHeader = Undefined\<rparr>) (Fn (Handler ''log'' (\<lambda>d. (d, True)))) =
     ((Maritime Undefined \<lparr>opt_env = Undefined, opt_keys = Undefined, opt_proxy = Undefined,
          opt_proxyHeader = Undefined\<rparr>)\<lparr>globalMiddleware := [Handler ''log'' (\<lambda>d. (d, True))]\<rparr>,
      None) \<and>
   use (Maritime Undefined \<lparr>opt_env = Undefined, opt_keys = Undefined, opt_proxy = Undefined,
          opt_proxyHeader = Undefined\<rparr>) (Str ''log'') =
     (Maritime Undefined \<lparr>opt_env = Undefined, opt_keys = Undefined, opt_proxy = Undefined,
          opt_proxyHeader = Undefined\<rparr>,
      Some (Error ''Middleware provided with .use() must be a function.''))"
  using use_appends_functions_only
      [of "Maritime Undefined \<lparr>opt_env = Undefined, opt_keys = Undefined, opt_proxy = Undefined,
             opt_proxyHeader = Undefined\<rparr>" "Fn (Handler ''log'' (\<lambda>d. (d, True)))"]
    use_appends_functions_only
      [of "Maritime Undefined \<lparr>opt_env = Undefined, opt_keys = Undefined, opt_proxy = Undefined,
             opt_proxyHeader = Undefined\<rparr>" "Str ''log''"]
  by simp

text \<open>
  C10: \<open>constructData\<close> sets the response header \<^verbatim>\<open>X-Powered-By: Maritime\<close> exactly when
  the setting \<^verbatim>\<open>x-powered-by\<close> is the boolean \<^verbatim>\<open>true\<close>, and otherwise leaves the response
  as it is; on a response that does not carry the header yet, the header is present
  afterwards iff the setting is \<^verbatim>\<open>true\<close>. The constructor sets the setting to the boolean
  "the environment is not \<^verbatim>\<open>production\<close>", the environment being \<^verbatim>\<open>options.env\<close>, else
  \<^verbatim>\<open>NODE_ENV\<close>, else \<^verbatim>\<open>development\<close>; so a freshly constructed application in
  production leaves the response untouched.
\<close>

theorem x_powered_by_header:
  "res (constructData U app rq rs) =
     (if get app ''x-powered-by'' = Bool True then setHeader rs ''X-Powered-By'' ''Maritime'' else rs) \<and>
   (getHeader rs ''X-Powered-By'' = None \<longrightarrow>
      (getHeader (res (constructData U app rq rs)) ''X-Powered-By'' = Some ''Maritime'' \<longleftrightarrow>
       get app ''x-powered-by'' = Bool True)) \<and>
   get (Maritime node_env opts) ''x-powered-by'' =
     Bool (env (Maritime node_env opts) \<noteq> Str ''production'') \<and>
   env (Maritime node_env opts) = js_or (js_or (opt_env opts) node_env) (Str ''development'') \<and>
   (env (Maritime node_env opts) = Str ''production'' \<longrightarrow>
      res (constructData U (Maritime node_env opts) rq rs) = rs)"
  by (simp add: constructData_def Let_def get_Maritime env_Maritime setHeader_def getHeader_def)

theorem x_powered_by_header_witness:
  "getHeader \<lparr>headers = Map.empty\<rparr> ''X-Powered-By'' = None \<and>
   getHeader
     (res (constructData (takeWhile (\<lambda>c. c \<noteq> CHR ''?''))
        (Maritime Undefined \<lparr>opt_env = Undefined, opt_keys = Undefined, opt_proxy = Undefined,
           opt_proxyHeader = Undefined\<rparr>)
        \<lparr>url = ''/a?b'', method = ''GET'', strippedPath = [], params = None\<rparr>
        \<lparr>headers = Map.empty\<rparr>)) ''X-Powered-By'' = Some ''Maritime'' \<and>
   env (Maritime (Str ''production'') \<lparr>opt_env = Undefined, opt_keys = Undefined,
          opt_proxy = Undefined, opt_proxyHeader = Undefined\<rparr>) = Str ''production'' \<and>
   res (constructData (takeWhile (\<lambda>c. c \<noteq> CHR ''?''))
        (Maritime (Str ''production'') \<lparr>opt_env = Undefined, opt_keys = Undefined,
           opt_proxy = Undefined, opt_proxyHeader = Undefined\<rparr>)
        \<lparr>url = ''/a?b'', method = ''GET'', strippedPath = [], params = None\<rparr>
        \<lparr>headers = Map.empty\<rparr>) = \<lparr>headers = Map.empty\<rparr>"
  using x_powered_by_header [of "takeWhile (\<lambda>c. c \<noteq> CHR ''?'')"
      "Maritime Undefined \<lparr>opt_env = Undefined, opt_keys = Undefined, opt_proxy = Undefined,
           opt_proxyHeader = Undefined\<rparr>"
      "\<lparr>url = ''/a?b'', method = ''GET'', strippedPath = [], params = None\<rparr>"
      "\<lparr>headers = Map.empty\<rparr>" "Str ''production''"
      "\<lparr>opt_env = Undefined, opt_keys = Undefined, opt_proxy = Undefined,
           opt_proxyHeader = Undefined\<rparr>"]
  by (simp add: get_Maritime env_Maritime js_or_def getHeader_def setHeader_def)

section \<open>Properties of mounting\<close>

lemma instanceof_js_not [simp]: "\<not> instanceof_maritimeRouter (js_not v)"
  by (simp add: js_not_def)

lemma and_then_Inr [simp]: "and_then (Inr a) f = f a"
  by (simp add: and_then_def)

lemma and_then_Inl [simp]: "and_then (Inl e) f = Inl e"
  by (simp add: and_then_def)

lemma arg_0_Cons [simp]: "arg (v # vs) 0 = v"
  by (simp add: arg_def)

lemma arg_last: "vs \<noteq> [] \<Longrightarrow> arg vs (int (length vs) - 1) = last vs"
proof -
  assume a: "vs \<noteq> []"
  then have "nat (int (length vs) - 1) = length vs - 1" by simp
  with a show ?thesis by (simp add: arg_def last_conv_nth)
qed

lemma slice_butlast: "slice (x # xs @ [y, z]) 1 (int (length (x # xs @ [y, z])) - 2) = xs"
  by (simp add: slice_def)

lemma slice_butlast0: "slice (xs @ [y, z]) 0 (int (length (xs @ [y, z])) - 2) = xs"
  by (simp add: slice_def)

lemma mount_args_single: "mount_args [PlainObj ms] = (None, None, PlainObj ms)"
  by (simp add: mount_args_def)

lemma call_method_error:
  "call_method m f u v = Inl e \<Longrightarrow> e = TypeError m \<or> (\<exists>r. f r = Inl e)"
  by (auto simp: call_method_def split: jsval.splits if_splits)

lemma router_use_error: "router_use r mw = Inl e \<Longrightarrow> e = TypeMismatchError"
  by (auto simp: router_use_def split: if_splits)

lemma and_then_error: "and_then x f = Inl e \<Longrightarrow> x = Inl e \<or> (\<exists>a. x = Inr a \<and> f a = Inl e)"
  by (cases x) simp_all

lemma prepare_router_error:
  assumes "prepare_router P E app baseRoute mws v = Inl e"
  shows "(\<exists>m. e = TypeError m) \<or> e = TypeMismatchError"
  using assms unfolding prepare_router_def Let_def
  by (auto dest!: and_then_error call_method_error router_use_error
        split: option.splits if_splits)

lemma mount_never_guard: "snd (mount P E app args) \<noteq>
        Some (Error ''Only maritime routers can be mounted for use with maritime.'')"
  by (auto simp: mount_def split: prod.splits sum.splits dest: prepare_router_error)

lemma mount_args_slices:
  "mount_args (Str b # map Fn (hs @ [h]) @ [rt]) = (Some b, Some (map Fn hs), rt) \<and>
   mount_args (map Fn (hs @ [h]) @ [rt]) = (None, Some (map Fn hs), rt)"
proof
  have l: "last (Str b # map Fn (hs @ [h]) @ [rt]) = rt" by simp
  have a1: "arg (Str b # map Fn (hs @ [h]) @ [rt]) 1 = (case hs of [] \<Rightarrow> Fn h | x # _ \<Rightarrow> Fn x)"
    by (cases hs) (simp_all add: arg_def)
  have s: "slice (Str b # map Fn hs @ [Fn h, rt]) 1
             (int (length (Str b # map Fn hs @ [Fn h, rt])) - 2) = map Fn hs"
    by (rule slice_butlast)
  have al: "arg (Str b # map Fn (hs @ [h]) @ [rt]) (int (length (Str b # map Fn (hs @ [h]) @ [rt])) - 1) = rt"
    using arg_last [of "Str b # map Fn (hs @ [h]) @ [rt]"] by simp
  show "mount_args (Str b # map Fn (hs @ [h]) @ [rt]) = (Some b, Some (map Fn hs), rt)"
    unfolding mount_args_def Let_def using a1 s al
    by (simp split: list.splits)
next
  have a0: "\<exists>x. arg (map Fn (hs @ [h]) @ [rt]) 0 = Fn x"
    by (cases hs) (simp_all add: arg_def)
  have s: "slice (map Fn hs @ [Fn h, rt]) 0 (int (length (map Fn hs @ [Fn h, rt])) - 2) = map Fn hs"
    by (rule slice_butlast0)
  have al: "arg (map Fn (hs @ [h]) @ [rt]) (int (length (map Fn (hs @ [h]) @ [rt])) - 1) = rt"
    using arg_last [of "map Fn (hs @ [h]) @ [rt]"] by simp
  from a0 obtain x where x: "arg (map Fn (hs @ [h]) @ [rt]) 0 = Fn x" by blast
  show "mount_args (map Fn (hs @ [h]) @ [rt]) = (None, Some (map Fn hs), rt)"
    unfolding mount_args_def Let_def using x s al by simp
qed

lemma router_collapse [simp]: "Router (routes r) (router_middleware r) (children r) = r"
  by (cases r) simp

lemma router_middleware_rebaseRouter [simp]:
  "router_middleware (rebaseRouter P r b) = router_middleware r"
  by (cases r) simp

lemma router_middleware_createRegex [simp]:
  "router_middleware (createRegex P r) = router_middleware r"
  by (simp add: createRegex_def)

lemma mount_args_base_one_handler:
  "mount_args [Str b, Fn h, rt] = (Some b, Some [], rt)"
  using mount_args_slices [of b "[]" h rt] by simp

lemma mount_base_one_handler:
  "mount P E (Maritime node_env opts) [Str b, Fn h, RouterObj r] =
     ((Maritime node_env opts)\<lparr>mountedRouters := [RouterObj (createRegex P (rebaseRouter P r b))]\<rparr>,
      None)"
  by (simp add: mount_def mount_args_base_one_handler prepare_router_def call_method_def
        get_Maritime router_use_def as_handlers_def)

lemma globalMiddleware_mount [simp]:
  "globalMiddleware (fst (mount P E app args)) = globalMiddleware app"
  by (simp add: mount_def split: prod.splits sum.splits)

lemma mount_router_ok:
  "get app ''routing-engine'' = Undefined \<Longrightarrow>
     mount P E app [RouterObj r] =
       (app\<lparr>mountedRouters := mountedRouters app @ [RouterObj (createRegex P r)]\<rparr>, None)"
  by (simp add: mount_def mount_args_def prepare_router_def call_method_def)

lemma mount_plain_ok:
  "get app ''routing-engine'' = Undefined \<Longrightarrow>
     mount P E app [PlainObj [''createRegex'']] =
       (app\<lparr>mountedRouters := mountedRouters app @ [PlainObj [''createRegex'']]\<rparr>, None)"
  by (simp add: mount_def mount_args_def prepare_router_def call_method_def)

lemma get_mounted [simp]:
  "get (app\<lparr>mountedRouters := rs\<rparr>) k = get app k"
  by (simp add: get_def)

text \<open>
  C1 fails on the code: the guard \<^verbatim>\<open>!router instanceof maritimeRouter\<close> tests the boolean
  \<^verbatim>\<open>!router\<close> and is false for every value. A plain object with a \<^verbatim>\<open>createRegex\<close> method
  is mounted without an error, and no call of \<open>mount\<close> throws the guard's error.
\<close>

theorem mount_guard_is_dead:
  "mount P E (Maritime node_env opts) [PlainObj [''createRegex'']] =
     ((Maritime node_env opts)\<lparr>mountedRouters := [PlainObj [''createRegex'']]\<rparr>, None) \<and>
   (\<forall>app args.
      snd (mount P E app args) \<noteq>
        Some (Error ''Only maritime routers can be mounted for use with maritime.''))"
  by (simp add: mount_plain_ok get_Maritime mount_never_guard)

text \<open>
  C2 fails on the code: of the handlers \<open>h1, ..., hk\<close> before the router, \<open>mount\<close> slices
  off the last one, with or without a base route. With a base route and one handler the
  router is mounted with its own middleware only.
\<close>

theorem mount_drops_last_handler:
  "mount_args (Str b # map Fn (hs @ [h]) @ [rt]) = (Some b, Some (map Fn hs), rt) \<and>
   mount_args (map Fn (hs @ [h]) @ [rt]) = (None, Some (map Fn hs), rt) \<and>
   mount P E (Maritime node_env opts) [Str b, Fn h, RouterObj r] =
     ((Maritime node_env opts)
        \<lparr>mountedRouters := [RouterObj (createRegex P (rebaseRouter P r b))]\<rparr>, None) \<and>
   router_middleware (createRegex P (rebaseRouter P r b)) = router_middleware r"
  using mount_args_slices [of b hs h rt]
  by (simp add: mount_base_one_handler)

section \<open>Properties of route lookup\<close>

lemma mountedRouters_users_app:
  "mountedRouters users_app = [RouterObj (createRegex pathToRegexp users_router)]"
  by (simp add: users_app_def mount_router_ok get_Maritime)

lemma globalMiddleware_users_app [simp]: "globalMiddleware users_app = []"
  by (simp add: users_app_def)

lemma globalMiddleware_logged_app: "globalMiddleware logged_app = [ex_log]"
  by (simp add: logged_app_def use_def as_handlers_def)

lemma globalMiddleware_denied_app: "globalMiddleware denied_app = [ex_deny]"
  by (simp add: denied_app_def use_def as_handlers_def)

lemma mountedRouters_three_mounts_app:
  "mountedRouters three_mounts_app =
     map RouterObj [createRegex pathToRegexp info_router] @
     RouterObj (createRegex pathToRegexp users_router) # [PlainObj [''createRegex'']]"
  by (simp add: three_mounts_app_def mount_router_ok mount_plain_ok get_Maritime)

lemma case_Inr_None: "(case x of Inl _ \<Rightarrow> False | Inr None \<Rightarrow> True | Inr (Some _) \<Rightarrow> False) \<Longrightarrow> x = Inr None"
  by (auto split: sum.splits option.splits)

lemma findRouteMatch_loop_skip:
  "\<forall>r'\<in>set rs. findRoute r' p (toLowerCase m) = None \<Longrightarrow>
     findRouteMatch_loop (map RouterObj rs @ vs) p m = findRouteMatch_loop vs p m"
  by (induction rs) (simp_all add: call_method_def)

lemma findRouteMatch_loop_hit:
  "findRoute r p (toLowerCase m) = Some mt \<Longrightarrow>
     findRouteMatch_loop (RouterObj r # vs) p m = Inr (Some \<lparr>route = mt, router = r\<rparr>)"
  by (simp add: call_method_def)

lemma findRouteMatch_loop_Some:
  "findRouteMatch_loop vs p m = Inr (Some md) \<Longrightarrow>
     \<exists>pre post. vs = pre @ RouterObj (router md) # post \<and>
       findRoute (router md) p (toLowerCase m) = Some (route md) \<and>
       (\<forall>v\<in>set pre. \<forall>r'. v = RouterObj r' \<longrightarrow> findRoute r' p (toLowerCase m) = None)"
proof (induction vs)
  case Nil
  then show ?case by simp
next
  case (Cons v vs)
  show ?case
  proof (cases "\<exists>r. v = RouterObj r \<and> findRoute r p (toLowerCase m) \<noteq> None")
    case True
    then obtain r mt where v: "v = RouterObj r" and f: "findRoute r p (toLowerCase m) = Some mt"
      by auto
    with Cons.prems have "md = \<lparr>route = mt, router = r\<rparr>"
      by (simp add: call_method_def)
    with v f have "v # vs = [] @ RouterObj (router md) # vs \<and>
       findRoute (router md) p (toLowerCase m) = Some (route md)" by simp
    then show ?thesis by (metis empty_iff list.set(1))
  next
    case False
    with Cons.prems have rest: "findRouteMatch_loop vs p m = Inr (Some md)"
      by (cases v) (auto simp: call_method_def split: if_splits)
    from Cons.IH [OF rest] obtain pre post where
      pp: "vs = pre @ RouterObj (router md) # post"
          "findRoute (router md) p (toLowerCase m) = Some (route md)"
          "\<forall>v\<in>set pre. \<forall>r'. v = RouterObj r' \<longrightarrow> findRoute r' p (toLowerCase m) = None"
      by blast
    from False pp have "v # vs = (v # pre) @ RouterObj (router md) # post \<and>
       findRoute (router md) p (toLowerCase m) = Some (route md) \<and>
       (\<forall>x\<in>set (v # pre). \<forall>r'. x = RouterObj r' \<longrightarrow> findRoute r' p (toLowerCase m) = None)"
      by auto
    then show ?thesis by blast
  qed
qed


lemma route_params_with_params [simp]: "route_params (with_params rt ps) = ps"
  by (simp add: with_params_def)


lemma info_router_no_match:
  "(case findRoute (createRegex pathToRegexp info_router) ''/users/42'' (toLowerCase ''GET'') of
      None \<Rightarrow> True | Some _ \<Rightarrow> False)"
  by code_simp

lemma users_router_match:
  "(case findRoute (createRegex pathToRegexp users_router) ''/users/42'' (toLowerCase ''GET'') of
      None \<Rightarrow> False | Some mt \<Rightarrow> route_params mt = [(''id'', ''42'')])"
  by code_simp

lemma three_mounts_other_throws:
  "(case findRouteMatch three_mounts_app ''/other'' ''GET'' of
      Inl (TypeError m) \<Rightarrow> m = ''findRoute'' | _ \<Rightarrow> False)"
  by code_simp

text \<open>
  C5: the route lookup scans the mounted routers in mount order. When the routers
  mounted before \<open>r\<close> resolve to nothing and \<open>r\<close> resolves to \<open>mt\<close>, the lookup returns
  \<open>mt\<close> together with \<open>r\<close>, whatever was mounted after \<open>r\<close>: nothing mounted later is
  consulted. Conversely, what the lookup returns is the resolution of the returned
  router, and no Router mounted before it resolves to a match.
\<close>

theorem findRouteMatch_first_mounted_wins:
  "(mountedRouters app = map RouterObj rs @ RouterObj r # post \<and>
    (\<forall>r'\<in>set rs. findRoute r' p (toLowerCase m) = None) \<and>
    findRoute r p (toLowerCase m) = Some mt \<longrightarrow>
      findRouteMatch app p m = Inr (Some \<lparr>route = mt, router = r\<rparr>)) \<and>
   (findRouteMatch app p m = Inr (Some md) \<longrightarrow>
      (\<exists>pre post. mountedRouters app = pre @ RouterObj (router md) # post \<and>
         findRoute (router md) p (toLowerCase m) = Some (route md) \<and>
         (\<forall>v\<in>set pre. \<forall>r'. v = RouterObj r' \<longrightarrow> findRoute r' p (toLowerCase m) = None)))"
proof (intro conjI impI)
  assume a: "mountedRouters app = map RouterObj rs @ RouterObj r # post \<and>
    (\<forall>r'\<in>set rs. findRoute r' p (toLowerCase m) = None) \<and>
    findRoute r p (toLowerCase m) = Some mt"
  then have "findRouteMatch app p m = findRouteMatch_loop (RouterObj r # post) p m"
    unfolding findRouteMatch_def using findRouteMatch_loop_skip [of rs p m "RouterObj r # post"]
    by simp
  also from a have "\<dots> = Inr (Some \<lparr>route = mt, router = r\<rparr>)"
    by (intro findRouteMatch_loop_hit) simp
  finally show "findRouteMatch app p m = Inr (Some \<lparr>route = mt, router = r\<rparr>)" .
next
  assume "findRouteMatch app p m = Inr (Some md)"
  then show "\<exists>pre post. mountedRouters app = pre @ RouterObj (router md) # post \<and>
         findRoute (router md) p (toLowerCase m) = Some (route md) \<and>
         (\<forall>v\<in>set pre. \<forall>r'. v = RouterObj r' \<longrightarrow> findRoute r' p (toLowerCase m) = None)"
    unfolding findRouteMatch_def by (rule findRouteMatch_loop_Some)
qed

text \<open>
  On the application with three mounts the users Router wins for \<^verbatim>\<open>GET /users/42\<close>,
  although the object mounted after it has no \<^verbatim>\<open>findRoute\<close>: a lookup that reaches that
  object throws.
\<close>

theorem findRouteMatch_first_mounted_wins_witness:
  "\<exists>mt. findRoute (createRegex pathToRegexp users_router) ''/users/42'' (toLowerCase ''GET'') = Some mt \<and>
      route_params mt = [(''id'', ''42'')] \<and>
      list_all (\<lambda>r'. findRoute r' ''/users/42'' (toLowerCase ''GET'') = None)
        [createRegex pathToRegexp info_router] \<and>
      findRouteMatch three_mounts_app ''/users/42'' ''GET'' =
        Inr (Some \<lparr>route = mt, router = createRegex pathToRegexp users_router\<rparr>) \<and>
      findRouteMatch three_mounts_app ''/other'' ''GET'' = Inl (TypeError ''findRoute'')"
proof -
  from users_router_match obtain mt where
    mt: "findRoute (createRegex pathToRegexp users_router) ''/users/42'' (toLowerCase ''GET'') = Some mt"
      "route_params mt = [(''id'', ''42'')]"
    by (auto split: option.splits)
  from info_router_no_match
  have none: "\<forall>r'\<in>set [createRegex pathToRegexp info_router].
      findRoute r' ''/users/42'' (toLowerCase ''GET'') = None"
    by (auto split: option.splits)
  from three_mounts_other_throws
  have other: "findRouteMatch three_mounts_app ''/other'' ''GET'' = Inl (TypeError ''findRoute'')"
    by (auto split: sum.splits error.splits)
  from findRouteMatch_first_mounted_wins
    [of three_mounts_app "[createRegex pathToRegexp info_router]"
        "createRegex pathToRegexp users_router" "[PlainObj [''createRegex'']]"
        "''/users/42''" "''GET''" mt]
    mountedRouters_three_mounts_app none mt(1)
  have "findRouteMatch three_mounts_app ''/users/42'' ''GET'' =
      Inr (Some \<lparr>route = mt, router = createRegex pathToRegexp users_router\<rparr>)"
    by blast
  with mt none other show ?thesis by (auto simp: list_all_iff)
qed

section \<open>Properties of request handling\<close>

lemma trace_after_event [simp]: "trace (after_event e r) = e # trace r"
  by (simp add: after_event_def)

lemma ctx_after_event [simp]: "ctx (after_event e r) = ctx r"
  by (simp add: after_event_def)

lemma thrown_after_event [simp]: "thrown (after_event e r) = thrown r"
  by (simp add: after_event_def)

lemma completed_simps [simp]:
  "trace (completed d) = []" "ctx (completed d) = d" "thrown (completed d) = None"
  by (simp_all add: completed_def)

lemma labels_simps [simp]:
  "labels [] = []" "labels (e # es) = (ev_tier e, ev_handler e) # labels es"
  "labels (es @ fs) = labels es @ labels fs"
  by (simp_all add: labels_def)

lemma labels_handlers: "labels es = map (Pair t) hs \<Longrightarrow> map ev_handler es = hs"
proof -
  assume "labels es = map (Pair t) hs"
  then have "map snd (labels es) = map snd (map (Pair t) hs)" by simp
  then show ?thesis by (simp add: labels_def comp_def)
qed

lemma called_next_event:
  "called_next \<lparr>ev_tier = t, ev_handler = h, ev_seen = d\<rparr> = snd (body h d)"
  by (simp add: called_next_def)

text \<open>
  A chain run with a continuation either is the chain run alone (some handler did not
  call next), or goes on with the continuation from the context the chain left.
\<close>

lemma chain_then:
  "middlewareCompiler t hs d k = middlewareCompiler t hs d completed \<or>
   middlewareCompiler t hs d k =
     (k (ctx (middlewareCompiler t hs d completed)))
       \<lparr>trace := trace (middlewareCompiler t hs d completed) @
                 trace (k (ctx (middlewareCompiler t hs d completed)))\<rparr>"
proof (induction hs arbitrary: d)
  case Nil
  show ?case by simp
next
  case (Cons h hs)
  obtain d' b where hb: "body h d = (d', b)" by (cases "body h d")
  show ?case
  proof (cases b)
    case False
    with hb show ?thesis by simp
  next
    case True
    with hb Cons.IH [of d'] show ?thesis
      by (auto simp: after_event_def)
  qed
qed

lemma chain_run:
  "middlewareCompiler t hs d k =
     (if list_all called_next (trace (middlewareCompiler t hs d completed))
      then (k (ctx (middlewareCompiler t hs d completed)))
             \<lparr>trace := trace (middlewareCompiler t hs d completed) @
                       trace (k (ctx (middlewareCompiler t hs d completed)))\<rparr>
      else middlewareCompiler t hs d completed)"
proof (induction hs arbitrary: d)
  case Nil
  show ?case by simp
next
  case (Cons h hs)
  obtain d' b where hb: "body h d = (d', b)" by (cases "body h d")
  show ?case
  proof (cases b)
    case False
    with hb show ?thesis by (simp add: called_next_event)
  next
    case True
    with hb Cons.IH [of d'] show ?thesis
      by (simp add: called_next_event after_event_def)
  qed
qed

lemma chain_alone_tier: "e \<in> set (trace (middlewareCompiler t hs d completed)) \<Longrightarrow> ev_tier e = t"
proof (induction hs arbitrary: d)
  case Nil
  then show ?case by simp
next
  case (Cons h hs)
  obtain d' b where hb: "body h d = (d', b)" by (cases "body h d")
  with Cons show ?case by (cases b) auto
qed

lemma chain_alone_thrown [simp]: "thrown (middlewareCompiler t hs d completed) = None"
proof (induction hs arbitrary: d)
  case Nil
  show ?case by simp
next
  case (Cons h hs)
  obtain d' b where hb: "body h d = (d', b)" by (cases "body h d")
  with Cons show ?case by (cases b) auto
qed

lemma chain_alone_take:
  "labels (trace (middlewareCompiler t hs d completed)) =
     map (Pair t) (take (length (trace (middlewareCompiler t hs d completed))) hs)"
proof (induction hs arbitrary: d)
  case Nil
  show ?case by simp
next
  case (Cons h hs)
  obtain d' b where hb: "body h d = (d', b)" by (cases "body h d")
  with Cons.IH [of d'] show ?case by (cases b) simp_all
qed

lemma chain_alone_all:
  "list_all called_next (trace (middlewareCompiler t hs d completed)) \<Longrightarrow>
     length (trace (middlewareCompiler t hs d completed)) = length hs"
proof (induction hs arbitrary: d)
  case Nil
  show ?case by simp
next
  case (Cons h hs)
  obtain d' b where hb: "body h d = (d', b)" by (cases "body h d")
  with Cons show ?case by (cases b) (simp_all add: called_next_event)
qed

lemma chain_alone_stop:
  "\<not> list_all called_next (trace (middlewareCompiler t hs d completed)) \<Longrightarrow>
     trace (middlewareCompiler t hs d completed) \<noteq> [] \<and>
     \<not> called_next (last (trace (middlewareCompiler t hs d completed))) \<and>
     list_all called_next (butlast (trace (middlewareCompiler t hs d completed)))"
proof (induction hs arbitrary: d)
  case Nil
  then show ?case by simp
next
  case (Cons h hs)
  obtain d' b where hb: "body h d = (d', b)" by (cases "body h d")
  show ?case
  proof (cases b)
    case False
    with hb show ?thesis by (simp add: called_next_event)
  next
    case True
    with hb Cons.prems have "\<not> list_all called_next (trace (middlewareCompiler t hs d' completed))"
      by (simp add: called_next_event)
    from Cons.IH [OF this] hb True show ?thesis by (simp add: called_next_event)
  qed
qed

lemma chain_alone_threads:
  "(let c = middlewareCompiler t hs d0 completed in
      (trace c = [] \<longrightarrow> ctx c = d0) \<and>
      (trace c \<noteq> [] \<longrightarrow>
         ev_seen (hd (trace c)) = d0 \<and>
         ctx c = fst (body (ev_handler (last (trace c))) (ev_seen (last (trace c))))) \<and>
      (\<forall>i. Suc i < length (trace c) \<longrightarrow>
         ev_seen (trace c ! Suc i) =
           fst (body (ev_handler (trace c ! i)) (ev_seen (trace c ! i)))))"
proof (induction hs arbitrary: d0)
  case Nil
  show ?case by simp
next
  case (Cons h hs)
  obtain d' b where hb: "body h d0 = (d', b)" by (cases "body h d0")
  show ?case
  proof (cases b)
    case False
    with hb show ?thesis by simp
  next
    case True
    let ?c = "middlewareCompiler t hs d' completed"
    from Cons.IH [of d'] have ih:
      "trace ?c = [] \<longrightarrow> ctx ?c = d'"
      "trace ?c \<noteq> [] \<longrightarrow> ev_seen (hd (trace ?c)) = d' \<and>
         ctx ?c = fst (body (ev_handler (last (trace ?c))) (ev_seen (last (trace ?c))))"
      "\<forall>i. Suc i < length (trace ?c) \<longrightarrow>
         ev_seen (trace ?c ! Suc i) = fst (body (ev_handler (trace ?c ! i)) (ev_seen (trace ?c ! i)))"
      by (simp_all add: Let_def)
    have tr: "trace (middlewareCompiler t (h # hs) d0 completed) =
        \<lparr>ev_tier = t, ev_handler = h, ev_seen = d0\<rparr> # trace ?c"
      and cx: "ctx (middlewareCompiler t (h # hs) d0 completed) = ctx ?c"
      using hb True by simp_all
    have nth: "\<forall>i. Suc i < length (\<lparr>ev_tier = t, ev_handler = h, ev_seen = d0\<rparr> # trace ?c) \<longrightarrow>
         ev_seen ((\<lparr>ev_tier = t, ev_handler = h, ev_seen = d0\<rparr> # trace ?c) ! Suc i) =
           fst (body (ev_handler ((\<lparr>ev_tier = t, ev_handler = h, ev_seen = d0\<rparr> # trace ?c) ! i))
                  (ev_seen ((\<lparr>ev_tier = t, ev_handler = h, ev_seen = d0\<rparr> # trace ?c) ! i)))"
    proof (intro allI impI)
      fix i
      assume "Suc i < length (\<lparr>ev_tier = t, ev_handler = h, ev_seen = d0\<rparr> # trace ?c)"
      then show "ev_seen ((\<lparr>ev_tier = t, ev_handler = h, ev_seen = d0\<rparr> # trace ?c) ! Suc i) =
           fst (body (ev_handler ((\<lparr>ev_tier = t, ev_handler = h, ev_seen = d0\<rparr> # trace ?c) ! i))
                  (ev_seen ((\<lparr>ev_tier = t, ev_handler = h, ev_seen = d0\<rparr> # trace ?c) ! i)))"
        using ih hb by (cases i) (auto simp: hd_conv_nth)
    qed
    show ?thesis
      unfolding Let_def tr cx using ih hb nth by (auto simp: Let_def)
  qed
qed

lemma handleRequest_run:
  "snd (handleRequest app d) =
     (let g = middlewareCompiler GlobalTier (globalMiddleware app) d completed in
      if list_all called_next (trace g) then
        (case findRouteMatch app (strippedPath (req (ctx g))) (method (req (ctx g))) of
           Inl err \<Rightarrow> g\<lparr>thrown := Some err\<rparr>
         | Inr None \<Rightarrow> g
         | Inr (Some md) \<Rightarrow>
             (let r = middlewareCompiler RouterTier (router_middleware (router md))
                        ((ctx g)\<lparr>req := (req (ctx g))\<lparr>params := Some (route_params (route md))\<rparr>\<rparr>)
                        completed;
                  t = middlewareCompiler RouteTier (middleware (route md)) (ctx r) completed
              in if list_all called_next (trace r)
                 then \<lparr>trace = trace g @ trace r @ trace t, ctx = ctx t, thrown = None\<rparr>
                 else \<lparr>trace = trace g @ trace r, ctx = ctx r, thrown = None\<rparr>))
      else g)"
proof -
  let ?g = "middlewareCompiler GlobalTier (globalMiddleware app) d completed"
  have rec: "\<And>c::run. thrown c = None \<Longrightarrow> c = \<lparr>trace = trace c, ctx = ctx c, thrown = None\<rparr>"
    by simp
  show ?thesis
  proof (cases "list_all called_next (trace ?g)")
    case False
    then show ?thesis
      using chain_run [of GlobalTier "globalMiddleware app" d "executeRouteFuncs app"]
      by (simp add: handleRequest_def Let_def)
  next
    case True
    then have run: "snd (handleRequest app d) =
        (executeRouteFuncs app (ctx ?g))\<lparr>trace := trace ?g @ trace (executeRouteFuncs app (ctx ?g))\<rparr>"
      using chain_run [of GlobalTier "globalMiddleware app" d "executeRouteFuncs app"]
      by (simp add: handleRequest_def)
    show ?thesis
    proof (cases "findRouteMatch app (strippedPath (req (ctx ?g))) (method (req (ctx ?g)))")
      case (Inl err)
      with run True show ?thesis
        by (simp add: executeRouteFuncs_def Let_def)
    next
      case (Inr found)
      show ?thesis
      proof (cases found)
        case None
        with Inr run True show ?thesis
          by (simp add: executeRouteFuncs_def Let_def completed_def)
      next
        case (Some md)
        let ?b = "(ctx ?g)\<lparr>req := (req (ctx ?g))\<lparr>params := Some (route_params (route md))\<rparr>\<rparr>"
        let ?r = "middlewareCompiler RouterTier (router_middleware (router md)) ?b completed"
        let ?t = "middlewareCompiler RouteTier (middleware (route md)) (ctx ?r) completed"
        have X: "executeRouteFuncs app (ctx ?g) =
            (if list_all called_next (trace ?r)
             then \<lparr>trace = trace ?r @ trace ?t, ctx = ctx ?t, thrown = None\<rparr>
             else \<lparr>trace = trace ?r, ctx = ctx ?r, thrown = None\<rparr>)"
          using Inr Some
            chain_run [of RouterTier "router_middleware (router md)" ?b "runRouteFuncs md"]
          by (simp add: executeRouteFuncs_def Let_def runRouteFuncs_def)
        from Inr Some run True show ?thesis
          unfolding X by (simp add: Let_def)
      qed
    qed
  qed
qed

lemma global_events:
  assumes "e \<in> set (trace (snd (handleRequest app d)))" and "ev_tier e = GlobalTier"
  shows "e \<in> set (trace (middlewareCompiler GlobalTier (globalMiddleware app) d completed))"
proof -
  have "\<And>hs d0. e \<notin> set (trace (middlewareCompiler RouterTier hs d0 completed))"
    using assms(2) by (auto dest: chain_alone_tier)
  moreover have "\<And>hs d0. e \<notin> set (trace (middlewareCompiler RouteTier hs d0 completed))"
    using assms(2) by (auto dest: chain_alone_tier)
  ultimately show ?thesis
    using assms(1) unfolding handleRequest_run Let_def
    by (auto split: if_splits sum.splits option.splits)
qed

lemma stopped_run:
  "\<not> list_all called_next (trace (middlewareCompiler GlobalTier (globalMiddleware app) d completed)) \<Longrightarrow>
     snd (handleRequest app d) = middlewareCompiler GlobalTier (globalMiddleware app) d completed"
  by (simp add: handleRequest_run Let_def)




lemma mountedRouters_use [simp]: "mountedRouters (fst (use app v)) = mountedRouters app"
  by (simp add: use_def)

lemma routes_users_router:
  "routes (createRegex pathToRegexp users_router) = [users_route]"
  by (simp add: createRegex_def users_router_def addRoute_def users_route_def)

lemma middleware_users_route: "middleware users_route = [ex_show]"
  by (simp add: users_route_def recompile_def Route_def Let_def)

lemma users_route_matches: "match users_route ''/users/42''"
  by code_simp

lemma users_route_method: "method_allowed (methods users_route) (toLowerCase ''GET'')"
  by code_simp

lemma users_route_extract: "extractParams users_route ''/users/42'' = [(''id'', ''42'')]"
  by code_simp

lemma logged_match: "findRouteMatch logged_app ''/users/42'' ''GET'' = Inr (Some users_match)"
  by (simp add: findRouteMatch_def logged_app_def mountedRouters_users_app call_method_def
        findRoute_def routes_users_router users_route_matches users_route_method
        users_route_extract users_match_def)

lemma denied_match: "findRouteMatch denied_app ''/users/42'' ''GET'' = Inr (Some users_match)"
  by (simp add: findRouteMatch_def denied_app_def mountedRouters_users_app call_method_def
        findRoute_def routes_users_router users_route_matches users_route_method
        users_route_extract users_match_def)

lemma logged_global_chain:
  "middlewareCompiler GlobalTier (globalMiddleware logged_app) (get_request p) completed =
     \<lparr>trace = [\<lparr>ev_tier = GlobalTier, ev_handler = ex_log, ev_seen = get_request p\<rparr>],
      ctx = get_request p, thrown = None\<rparr>"
  by (simp add: globalMiddleware_logged_app ex_log_def after_event_def completed_def)

lemma denied_global_chain:
  "middlewareCompiler GlobalTier (globalMiddleware denied_app) (get_request p) completed =
     \<lparr>trace = [\<lparr>ev_tier = GlobalTier, ev_handler = ex_deny, ev_seen = get_request p\<rparr>],
      ctx = get_request p, thrown = None\<rparr>"
  by (simp add: globalMiddleware_denied_app ex_deny_def after_event_def completed_def)

lemma get_request_simps [simp]:
  "strippedPath (req (get_request p)) = p" "method (req (get_request p)) = ''GET''"
  by (simp_all add: get_request_def)

lemma users_match_simps [simp]:
  "router_middleware (router users_match) = [ex_auth]"
  "middleware (route users_match) = [ex_show]"
  "route_params (route users_match) = [(''id'', ''42'')]"
  by (simp_all add: users_match_def users_router_def addRoute_def middleware_users_route
        with_params_def)

lemma users_router_chain:
  "middlewareCompiler RouterTier [ex_auth] d0 completed =
     \<lparr>trace = [\<lparr>ev_tier = RouterTier, ev_handler = ex_auth, ev_seen = d0\<rparr>],
      ctx = d0, thrown = None\<rparr>"
  by (simp add: ex_auth_def after_event_def completed_def)

lemma users_route_chain:
  "middlewareCompiler RouteTier [ex_show] d0 completed =
     \<lparr>trace = [\<lparr>ev_tier = RouteTier, ev_handler = ex_show, ev_seen = d0\<rparr>],
      ctx = d0, thrown = None\<rparr>"
  by (simp add: ex_show_def after_event_def completed_def)

lemma called_next_samples [simp]:
  "called_next \<lparr>ev_tier = t, ev_handler = ex_log, ev_seen = d0\<rparr>"
  "called_next \<lparr>ev_tier = t, ev_handler = ex_auth, ev_seen = d0\<rparr>"
  "\<not> called_next \<lparr>ev_tier = t, ev_handler = ex_show, ev_seen = d0\<rparr>"
  "\<not> called_next \<lparr>ev_tier = t, ev_handler = ex_deny, ev_seen = d0\<rparr>"
  by (simp_all add: called_next_def ex_log_def ex_auth_def ex_show_def ex_deny_def)

lemma users_no_match_logged:
  "(case findRouteMatch logged_app ''/users'' ''GET'' of
      Inl _ \<Rightarrow> False | Inr None \<Rightarrow> True | Inr (Some _) \<Rightarrow> False)"
  by code_simp


text \<open>
  C6: when the route lookup for the path and method of the request, as the global chain
  leaves them, finds no match, request handling is the run of the global chain alone: no
  router-scope or route-scope handler is invoked, nothing is thrown, and the application
  with its Routers and Routes is returned as it was. The lookup finds no match whenever
  everything mounted is a Router and none of them resolves the path and method.
\<close>

theorem no_match_completes:
  "findRouteMatch app
      (strippedPath (req (ctx (middlewareCompiler GlobalTier (globalMiddleware app) d completed))))
      (method (req (ctx (middlewareCompiler GlobalTier (globalMiddleware app) d completed)))) =
     Inr None \<Longrightarrow>
   handleRequest app d = (app, middlewareCompiler GlobalTier (globalMiddleware app) d completed) \<and>
   fst (handleRequest app d) = app \<and>
   thrown (snd (handleRequest app d)) = None \<and>
   (\<forall>e\<in>set (trace (snd (handleRequest app d))). ev_tier e = GlobalTier) \<and>
   (\<forall>rs p m.
      mountedRouters app = map RouterObj rs \<and>
      (\<forall>r\<in>set rs. findRoute r p (toLowerCase m) = None) \<longrightarrow>
      findRouteMatch app p m = Inr None)"
proof -
  let ?g = "middlewareCompiler GlobalTier (globalMiddleware app) d completed"
  have lookup: "\<forall>rs p m.
      mountedRouters app = map RouterObj rs \<and>
      (\<forall>r\<in>set rs. findRoute r p (toLowerCase m) = None) \<longrightarrow>
      findRouteMatch app p m = Inr None"
    using findRouteMatch_loop_skip [of _ _ _ "[]"] by (simp add: findRouteMatch_def)
  assume nm: "findRouteMatch app (strippedPath (req (ctx ?g))) (method (req (ctx ?g))) = Inr None"
  then have k: "executeRouteFuncs app (ctx ?g) = completed (ctx ?g)"
    by (simp add: executeRouteFuncs_def)
  have "middlewareCompiler GlobalTier (globalMiddleware app) d (executeRouteFuncs app) = ?g"
    using chain_then [of GlobalTier "globalMiddleware app" d "executeRouteFuncs app"] k
    by (auto simp: completed_def)
  then have h: "handleRequest app d = (app, ?g)"
    by (simp add: handleRequest_def)
  have "\<forall>e\<in>set (trace ?g). ev_tier e = GlobalTier"
    by (auto dest: chain_alone_tier)
  with h lookup show ?thesis by simp
qed

theorem no_match_completes_witness:
  "findRouteMatch logged_app ''/users'' ''GET'' = Inr None \<and>
   handleRequest logged_app (get_request ''/users'') =
     (logged_app,
      \<lparr>trace = [\<lparr>ev_tier = GlobalTier, ev_handler = ex_log, ev_seen = get_request ''/users''\<rparr>],
       ctx = get_request ''/users'', thrown = None\<rparr>)"
proof -
  have nm: "findRouteMatch logged_app ''/users'' ''GET'' = Inr None"
    using users_no_match_logged by (rule case_Inr_None)
  have g: "middlewareCompiler GlobalTier (globalMiddleware logged_app) (get_request ''/users'') completed =
      \<lparr>trace = [\<lparr>ev_tier = GlobalTier, ev_handler = ex_log, ev_seen = get_request ''/users''\<rparr>],
       ctx = get_request ''/users'', thrown = None\<rparr>"
    by (simp add: globalMiddleware_logged_app ex_log_def after_event_def completed_def)
  have p: "strippedPath (req (get_request ''/users'')) = ''/users''"
       "method (req (get_request ''/users'')) = ''GET''"
    by (simp_all add: get_request_def)
  from no_match_completes [of logged_app "get_request ''/users''"] nm g p
  show ?thesis by simp
qed

text \<open>
  C3: request handling is determined tier by tier. Let \<open>g\<close> be the run of the global chain
  alone. If a global handler that was invoked did not call next, the run is \<open>g\<close>.
  Otherwise the routes are looked up for the path and method the global chain left: when
  the lookup throws the run is \<open>g\<close> with that error, when it finds nothing the run is
  \<open>g\<close>, and on the match \<open>md\<close> the run is \<open>g\<close>, then the run \<open>r\<close> of the matched Router's
  chain on the context with the parameters bound, then, if every handler of \<open>r\<close> called
  next, the run of the matched Route's chain on the context \<open>r\<close> left. A chain run alone
  invokes a prefix of its handlers in list order under its tier, each on the context the
  one before it left; all of them if each called next, and otherwise it stops at the
  first that did not; it throws nothing. So when a global handler does not call next on this request, or
  never calls it, every handler invoked is a global one.
\<close>

theorem tiers_run_in_order:
  "snd (handleRequest app d) =
     (let g = middlewareCompiler GlobalTier (globalMiddleware app) d completed in
      if list_all called_next (trace g) then
        (case findRouteMatch app (strippedPath (req (ctx g))) (method (req (ctx g))) of
           Inl err \<Rightarrow> g\<lparr>thrown := Some err\<rparr>
         | Inr None \<Rightarrow> g
         | Inr (Some md) \<Rightarrow>
             (let r = middlewareCompiler RouterTier (router_middleware (router md))
                        ((ctx g)\<lparr>req := (req (ctx g))\<lparr>params := Some (route_params (route md))\<rparr>\<rparr>)
                        completed;
                  t = middlewareCompiler RouteTier (middleware (route md)) (ctx r) completed
              in if list_all called_next (trace r)
                 then \<lparr>trace = trace g @ trace r @ trace t, ctx = ctx t, thrown = None\<rparr>
                 else \<lparr>trace = trace g @ trace r, ctx = ctx r, thrown = None\<rparr>))
      else g) \<and>
   (let c = middlewareCompiler t hs d0 completed in
      labels (trace c) = map (Pair t) (take (length (trace c)) hs) \<and>
      (list_all called_next (trace c) \<longrightarrow> length (trace c) = length hs) \<and>
      (\<not> list_all called_next (trace c) \<longrightarrow>
         trace c \<noteq> [] \<and> \<not> called_next (last (trace c)) \<and>
         list_all called_next (butlast (trace c))) \<and>
      thrown c = None \<and>
      (trace c = [] \<longrightarrow> ctx c = d0) \<and>
      (trace c \<noteq> [] \<longrightarrow>
         ev_seen (hd (trace c)) = d0 \<and>
         ctx c = fst (body (ev_handler (last (trace c))) (ev_seen (last (trace c))))) \<and>
      (\<forall>i. Suc i < length (trace c) \<longrightarrow>
         ev_seen (trace c ! Suc i) =
           fst (body (ev_handler (trace c ! i)) (ev_seen (trace c ! i))))) \<and>
   ((\<exists>e\<in>set (trace (snd (handleRequest app d))). ev_tier e = GlobalTier \<and> \<not> called_next e) \<longrightarrow>
      (\<forall>e\<in>set (trace (snd (handleRequest app d))). ev_tier e = GlobalTier)) \<and>
   ((\<exists>h\<in>set (globalMiddleware app). \<forall>d'. \<not> snd (body h d')) \<longrightarrow>
      (\<forall>e\<in>set (trace (snd (handleRequest app d))). ev_tier e = GlobalTier))"
proof (intro conjI)
  let ?g = "middlewareCompiler GlobalTier (globalMiddleware app) d completed"
  show "(\<exists>e\<in>set (trace (snd (handleRequest app d))). ev_tier e = GlobalTier \<and> \<not> called_next e) \<longrightarrow>
      (\<forall>e\<in>set (trace (snd (handleRequest app d))). ev_tier e = GlobalTier)"
  proof
    assume "\<exists>e\<in>set (trace (snd (handleRequest app d))). ev_tier e = GlobalTier \<and> \<not> called_next e"
    then obtain e where e: "e \<in> set (trace (snd (handleRequest app d)))"
      "ev_tier e = GlobalTier" "\<not> called_next e" by blast
    from global_events [OF e(1) e(2)] e(3) have "\<not> list_all called_next (trace ?g)"
      by (auto simp: list_all_iff)
    then have "snd (handleRequest app d) = ?g" by (rule stopped_run)
    then show "\<forall>e\<in>set (trace (snd (handleRequest app d))). ev_tier e = GlobalTier"
      by (auto dest: chain_alone_tier)
  qed
  show "(\<exists>h\<in>set (globalMiddleware app). \<forall>d'. \<not> snd (body h d')) \<longrightarrow>
      (\<forall>e\<in>set (trace (snd (handleRequest app d))). ev_tier e = GlobalTier)"
  proof
    assume "\<exists>h\<in>set (globalMiddleware app). \<forall>d'. \<not> snd (body h d')"
    then obtain h where h: "h \<in> set (globalMiddleware app)" "\<forall>d'. \<not> snd (body h d')" by blast
    have "\<not> list_all called_next (trace ?g)"
    proof
      assume all: "list_all called_next (trace ?g)"
      then have "length (trace ?g) = length (globalMiddleware app)" by (rule chain_alone_all)
      with chain_alone_take [of GlobalTier "globalMiddleware app" d]
      have "labels (trace ?g) = map (Pair GlobalTier) (globalMiddleware app)" by simp
      then have "map ev_handler (trace ?g) = globalMiddleware app" by (rule labels_handlers)
      then have "set (globalMiddleware app) = ev_handler ` set (trace ?g)" by (metis set_map)
      with h(1) obtain e where "e \<in> set (trace ?g)" "ev_handler e = h" by auto
      with all h(2) show False by (auto simp: list_all_iff called_next_def)
    qed
    then have "snd (handleRequest app d) = ?g" by (rule stopped_run)
    then show "\<forall>e\<in>set (trace (snd (handleRequest app d))). ev_tier e = GlobalTier"
      by (auto dest: chain_alone_tier)
  qed
  show "let c = middlewareCompiler t hs d0 completed in
      labels (trace c) = map (Pair t) (take (length (trace c)) hs) \<and>
      (list_all called_next (trace c) \<longrightarrow> length (trace c) = length hs) \<and>
      (\<not> list_all called_next (trace c) \<longrightarrow>
         trace c \<noteq> [] \<and> \<not> called_next (last (trace c)) \<and>
         list_all called_next (butlast (trace c))) \<and>
      thrown c = None \<and>
      (trace c = [] \<longrightarrow> ctx c = d0) \<and>
      (trace c \<noteq> [] \<longrightarrow>
         ev_seen (hd (trace c)) = d0 \<and>
         ctx c = fst (body (ev_handler (last (trace c))) (ev_seen (last (trace c))))) \<and>
      (\<forall>i. Suc i < length (trace c) \<longrightarrow>
         ev_seen (trace c ! Suc i) =
           fst (body (ev_handler (trace c ! i)) (ev_seen (trace c ! i))))"
    using chain_alone_take [of t hs d0] chain_alone_all [of t hs d0]
      chain_alone_stop [of t hs d0] chain_alone_threads [of t hs d0]
      chain_alone_thrown [of t hs d0]
    unfolding Let_def by blast
qed (rule handleRequest_run)

theorem tiers_run_in_order_witness:
  "(\<exists>h\<in>set (globalMiddleware denied_app). \<forall>d'. \<not> snd (body h d')) \<and>
   list_all (\<lambda>e. ev_tier e = GlobalTier)
     (trace (snd (handleRequest denied_app (get_request ''/users/42'')))) \<and>
   findRouteMatch denied_app ''/users/42'' ''GET'' = Inr (Some users_match) \<and>
   snd (handleRequest denied_app (get_request ''/users/42'')) =
     \<lparr>trace =
        [\<lparr>ev_tier = GlobalTier, ev_handler = ex_deny, ev_seen = get_request ''/users/42''\<rparr>],
      ctx = get_request ''/users/42'', thrown = None\<rparr> \<and>
   \<not> called_next
       \<lparr>ev_tier = GlobalTier, ev_handler = ex_deny, ev_seen = get_request ''/users/42''\<rparr> \<and>
   findRouteMatch logged_app ''/users/42'' ''GET'' = Inr (Some users_match) \<and>
   snd (handleRequest logged_app (get_request ''/users/42'')) =
     \<lparr>trace =
        [\<lparr>ev_tier = GlobalTier, ev_handler = ex_log, ev_seen = get_request ''/users/42''\<rparr>,
         \<lparr>ev_tier = RouterTier, ev_handler = ex_auth,
            ev_seen = (get_request ''/users/42'')
              \<lparr>req := (req (get_request ''/users/42''))\<lparr>params := Some [(''id'', ''42'')]\<rparr>\<rparr>\<rparr>,
         \<lparr>ev_tier = RouteTier, ev_handler = ex_show,
            ev_seen = (get_request ''/users/42'')
              \<lparr>req := (req (get_request ''/users/42''))\<lparr>params := Some [(''id'', ''42'')]\<rparr>\<rparr>\<rparr>],
      ctx = (get_request ''/users/42'')
              \<lparr>req := (req (get_request ''/users/42''))\<lparr>params := Some [(''id'', ''42'')]\<rparr>\<rparr>,
      thrown = None\<rparr>"
proof -
  have h: "\<exists>h\<in>set (globalMiddleware denied_app). \<forall>d'. \<not> snd (body h d')"
    by (simp add: globalMiddleware_denied_app ex_deny_def)
  with tiers_run_in_order [of denied_app "get_request ''/users/42''"]
  have "\<forall>e\<in>set (trace (snd (handleRequest denied_app (get_request ''/users/42'')))).
          ev_tier e = GlobalTier"
    by blast
  then have g: "list_all (\<lambda>e. ev_tier e = GlobalTier)
     (trace (snd (handleRequest denied_app (get_request ''/users/42''))))"
    by (simp add: list_all_iff)
  from tiers_run_in_order [of denied_app "get_request ''/users/42''"]
  have dn: "snd (handleRequest denied_app (get_request ''/users/42'')) =
     \<lparr>trace =
        [\<lparr>ev_tier = GlobalTier, ev_handler = ex_deny, ev_seen = get_request ''/users/42''\<rparr>],
      ctx = get_request ''/users/42'', thrown = None\<rparr>"
    by (simp del: middlewareCompiler.simps add: Let_def denied_global_chain)
  from tiers_run_in_order [of logged_app "get_request ''/users/42''"]
  have "snd (handleRequest logged_app (get_request ''/users/42'')) =
     \<lparr>trace =
        [\<lparr>ev_tier = GlobalTier, ev_handler = ex_log, ev_seen = get_request ''/users/42''\<rparr>,
         \<lparr>ev_tier = RouterTier, ev_handler = ex_auth,
            ev_seen = (get_request ''/users/42'')
              \<lparr>req := (req (get_request ''/users/42''))\<lparr>params := Some [(''id'', ''42'')]\<rparr>\<rparr>\<rparr>,
         \<lparr>ev_tier = RouteTier, ev_handler = ex_show,
            ev_seen = (get_request ''/users/42'')
              \<lparr>req := (req (get_request ''/users/42''))\<lparr>params := Some [(''id'', ''42'')]\<rparr>\<rparr>\<rparr>],
      ctx = (get_request ''/users/42'')
              \<lparr>req := (req (get_request ''/users/42''))\<lparr>params := Some [(''id'', ''42'')]\<rparr>\<rparr>,
      thrown = None\<rparr>"
    by (simp del: middlewareCompiler.simps
          add: Let_def logged_global_chain logged_match users_router_chain users_route_chain)
  with h g dn denied_match logged_match show ?thesis by simp
qed









end
